theory Spec2Isabelle
  imports Main "HOL-Library.Multiset" "HOL-Library.Sublist"
begin

section \<open>Python values, exceptions and call results\<close>

text \<open>
  The exceptions that \<open>db.py\<close> names or that its calls can raise. \<open>IntegrityError\<close>
  and \<open>StatementError\<close> come from the store, the others from Python, the array
  library and the date parser.
\<close>

datatype exn =
    TypeError | ValueError | IndexError | AttributeError | OverflowError
  | IntegrityError | StatementError

text \<open>
  How a call ends: it returns a value, an exception escapes to the caller, or
  \<open>sys.exit(n)\<close> ends the process.
\<close>

datatype 'a result = Returned 'a | Raised exn | Exited nat

text \<open>
  A spreadsheet cell: \<open>None\<close>, a string or an integer. \<open>truthy\<close> is Python's truth
  value of a cell, as \<open>not row[-1]\<close> and \<open>if prepped_date\<close> read it.
\<close>

datatype cell = CNone | CStr string | CNum int

fun truthy :: "cell \<Rightarrow> bool" where
  "truthy CNone = False"
| "truthy (CStr s) = (s \<noteq> [])"
| "truthy (CNum n) = (n \<noteq> 0)"

text \<open>
  The two-dimensional array \<open>data\<close>: \<open>data.shape[1]\<close> is \<open>ncols\<close>, iterating it yields
  \<open>rows\<close>. In a well-formed array every row has \<open>ncols\<close> cells.
\<close>

record array2 =
  ncols :: nat
  rows :: "cell list list"

definition wf_array :: "array2 \<Rightarrow> bool" where
  "wf_array a = list_all (\<lambda>r. length r = ncols a) (rows a)"

section \<open>Text\<close>

text \<open>\<open>str.lower\<close> on ASCII letters, and the decimal text of a natural number.\<close>

definition lower_char :: "char \<Rightarrow> char" where
  "lower_char c =
     (case map_of (zip ''ABCDEFGHIJKLMNOPQRSTUVWXYZ'' ''abcdefghijklmnopqrstuvwxyz'') c of
        None \<Rightarrow> c
      | Some l \<Rightarrow> l)"

definition lower :: "string \<Rightarrow> string" where
  "lower s = map lower_char s"

definition digit_char :: "nat \<Rightarrow> char" where
  "digit_char n = ''0123456789'' ! n"

fun decimal :: "nat \<Rightarrow> string" where
  "decimal n = (if n < 10 then [digit_char n] else decimal (n div 10) @ [digit_char (n mod 10)])"

section \<open>Schema (lines 17 to 60)\<close>

text \<open>
  One record per mapped class. A primary-key column is a value, any other column is
  nullable (\<open>None\<close> when the constructor leaves it out). Two classes share the field
  names \<open>company_cik\<close> and \<open>filing_accession\<close>; the foreign-key side is written
  \<open>filing_company_cik\<close> in \<open>FilingInfo\<close> and \<open>data_filing_accession\<close> in \<open>FilingData\<close>.
  \<open>FilingData\<close> keeps what \<open>set_filing_data\<close> assigns: cells for term and value, the
  \<open>strftime\<close> string for the period.
\<close>

record SicInfo =
  sic_code :: string
  ad_office :: "string option"
  industry_title :: "string option"

record CompanyInfo =
  company_cik :: string
  company_name :: "string option"
  company_ticker :: "string option"
  company_sic :: "string option"
  company_state :: "string option"
  company_info_attempted :: "bool option"

record FilingInfo =
  filing_company_cik :: "string option"
  filing_accession :: string
  form :: "string option"
  period :: "int option"
  filed :: "int option"
  filing_url :: "string option"
  excel_url :: "string option"
  excel_path :: "string option"
  parsed_data :: "bool option"
  parsing_attempted :: "bool option"

record FilingData =
  data_filing_accession :: string
  filing_term :: cell
  filing_type :: string
  filing_value :: cell
  value_period :: string

section \<open>The store and the session\<close>

text \<open>
  The tables, each in the store's natural order, and the entities a session can stage.
\<close>

record db =
  sics :: "SicInfo list"
  companies :: "CompanyInfo list"
  filings :: "FilingInfo list"
  filing_data :: "FilingData list"

datatype entity =
    ESic SicInfo | ECompany CompanyInfo | EFiling FilingInfo | EData FilingData

text \<open>
  A session (\<open>autocommit=False\<close>, the session maker's default autoflush): \<open>committed\<close>
  is what the store holds durably, \<open>working\<close> is the open transaction's view, \<open>pending\<close>
  the entities staged by \<open>add_all\<close> and not yet written.
\<close>

record session =
  committed :: db
  working :: db
  pending :: "entity list"

fun stage :: "entity \<Rightarrow> db \<Rightarrow> db" where
  "stage (ESic x) d = d\<lparr>sics := sics d @ [x]\<rparr>"
| "stage (ECompany x) d = d\<lparr>companies := companies d @ [x]\<rparr>"
| "stage (EFiling x) d = d\<lparr>filings := filings d @ [x]\<rparr>"
| "stage (EData x) d = d\<lparr>filing_data := filing_data d @ [x]\<rparr>"

fun stage_all :: "entity list \<Rightarrow> db \<Rightarrow> db" where
  "stage_all [] d = d"
| "stage_all (e # es) d = stage_all es (stage e d)"

text \<open>
  What the store does with a value it is given, from the column types of the schema.

  A \<open>String\<close> column keeps text: an integer written into it is stored as its decimal
  text, so the key \<open>1\<close> and the key \<open>'1'\<close> are the same key.
\<close>

definition int_text :: "int \<Rightarrow> string" where
  "int_text n = (if n < 0 then CHR ''-'' # decimal (nat (- n)) else decimal (nat n))"

definition term_text :: "cell \<Rightarrow> string option" where
  "term_text c = (case c of CNone \<Rightarrow> None | CStr t \<Rightarrow> Some t | CNum n \<Rightarrow> Some (int_text n))"

text \<open>
  A \<open>Float\<close> column binds its value with \<open>float(value)\<close> (\<open>None\<close> stays null). On a
  string \<open>float\<close> accepts, between leading and trailing white space, an optional sign
  and then \<open>inf\<close>, \<open>infinity\<close> or \<open>nan\<close> in any letter case, or a decimal number: digits
  (single underscores allowed between digits) with an optional point and fraction, at
  least one digit in all, and an optional exponent. On any other string it raises
  \<open>ValueError\<close>, which the statement reports as \<open>StatementError\<close>.
\<close>

definition is_space :: "char \<Rightarrow> bool" where
  "is_space c = (c \<in> set [CHR '' '', CHR 0x09, CHR 0x0A, CHR 0x0B, CHR 0x0C, CHR 0x0D])"

definition strip :: "string \<Rightarrow> string" where
  "strip t = rev (dropWhile is_space (rev (dropWhile is_space t)))"

definition is_digit :: "char \<Rightarrow> bool" where
  "is_digit c = (c \<in> set ''0123456789'')"

fun digits_rest :: "string \<Rightarrow> string" where
  "digits_rest [] = []"
| "digits_rest [c] = (if is_digit c then [] else [c])"
| "digits_rest (c # d # ds) =
     (if is_digit c then digits_rest (d # ds)
      else if c = CHR ''_'' \<and> is_digit d then digits_rest ds
      else c # d # ds)"

definition digitpart :: "string \<Rightarrow> string option" where
  "digitpart t =
     (case t of [] \<Rightarrow> None | c # cs \<Rightarrow> if is_digit c then Some (digits_rest cs) else None)"

definition drop_sign :: "string \<Rightarrow> string" where
  "drop_sign t =
     (case t of [] \<Rightarrow> [] | c # cs \<Rightarrow> if c = CHR ''+'' \<or> c = CHR ''-'' then cs else c # cs)"

definition exponent_end :: "string \<Rightarrow> bool" where
  "exponent_end t =
     (case t of
        [] \<Rightarrow> True
      | c # cs \<Rightarrow> (c = CHR ''e'' \<or> c = CHR ''E'') \<and> digitpart (drop_sign cs) = Some [])"

definition float_literal :: "string \<Rightarrow> bool" where
  "float_literal t =
     (let u = drop_sign (strip t) in
      if lower u = ''inf'' \<or> lower u = ''infinity'' \<or> lower u = ''nan'' then True
      else
       (case digitpart u of
          Some r \<Rightarrow>
            (case r of
               [] \<Rightarrow> True
             | c # cs \<Rightarrow>
                 if c = CHR ''.''
                 then (case digitpart cs of None \<Rightarrow> exponent_end cs | Some r' \<Rightarrow> exponent_end r')
                 else exponent_end r)
        | None \<Rightarrow>
            (case u of
               [] \<Rightarrow> False
             | c # cs \<Rightarrow>
                 c = CHR ''.'' \<and>
                 (case digitpart cs of None \<Rightarrow> False | Some r' \<Rightarrow> exponent_end r'))))"

definition float_bind_ok :: "cell \<Rightarrow> bool" where
  "float_bind_ok v = (case v of CStr t \<Rightarrow> float_literal t | _ \<Rightarrow> True)"

text \<open>
  What the store enforces on a write: each table's primary key is unique (for
  \<open>FilingData\<close> the triple accession, term, period, the term as the text stored) and
  a key is not null. SQLite does not enforce the foreign keys.
\<close>

definition data_key :: "FilingData \<Rightarrow> string \<times> string option \<times> string" where
  "data_key x = (data_filing_accession x, term_text (filing_term x), value_period x)"

definition parent_integrity :: "db \<Rightarrow> bool" where
  "parent_integrity d =
     (distinct (map sic_code (sics d)) \<and>
      distinct (map company_cik (companies d)) \<and>
      distinct (map filing_accession (filings d)))"

definition data_integrity :: "db \<Rightarrow> bool" where
  "data_integrity d =
     (distinct (map data_key (filing_data d)) \<and>
      list_all (\<lambda>x. filing_term x \<noteq> CNone) (filing_data d))"

definition integrity :: "db \<Rightarrow> bool" where
  "integrity d = (parent_integrity d \<and> data_integrity d)"

text \<open>The \<open>Float\<close> values among the staged entities all bind.\<close>

fun binds :: "entity list \<Rightarrow> bool" where
  "binds [] = True"
| "binds (EData x # es) = (float_bind_ok (filing_value x) \<and> binds es)"
| "binds (e # es) = binds es"

text \<open>
  \<open>flush\<close> writes the staged entities into the transaction, the tables in the order
  of their dependencies: a key violation in the industry, company or filing table
  raises \<open>IntegrityError\<close>; then a data-point value that does not bind raises
  \<open>StatementError\<close>; then a key violation in the data-point table raises
  \<open>IntegrityError\<close>. Every query flushes first (autoflush). \<open>rollback\<close> drops the
  transaction and what is staged, \<open>commit\<close> flushes and makes the transaction durable.
\<close>

definition flush :: "session \<Rightarrow> exn + session" where
  "flush s =
     (let d = stage_all (pending s) (working s)
      in if parent_integrity d then
           if binds (pending s) then
             if data_integrity d then Inr (s\<lparr>working := d, pending := []\<rparr>)
             else Inl IntegrityError
           else Inl StatementError
         else Inl IntegrityError)"

definition query :: "session \<Rightarrow> (db \<Rightarrow> 'a) \<Rightarrow> exn + ('a \<times> session)" where
  "query s q = (case flush s of Inl e \<Rightarrow> Inl e | Inr s' \<Rightarrow> Inr (q (working s'), s'))"

definition rollback :: "session \<Rightarrow> session" where
  "rollback s = s\<lparr>working := committed s, pending := []\<rparr>"

definition commit :: "session \<Rightarrow> exn + session" where
  "commit s = (case flush s of Inl e \<Rightarrow> Inl e | Inr s' \<Rightarrow> Inr (s'\<lparr>committed := working s'\<rparr>))"

definition add_all :: "entity list \<Rightarrow> session \<Rightarrow> session" where
  "add_all es s = s\<lparr>pending := pending s @ es\<rparr>"

text \<open>
  \<open>insert_objects\<close> (lines 158 to 162): a single entity is wrapped into a list, then
  staged; nothing is written or checked here.
\<close>

datatype objects = Single entity | Many "entity list"

fun insert_objects :: "objects \<Rightarrow> session \<Rightarrow> session" where
  "insert_objects (Single e) s = add_all [e] s"
| "insert_objects (Many es) s = add_all es s"

section \<open>The filtered join query (lines 99 to 127)\<close>

text \<open>
  \<open>query(FilingInfo, CompanyInfo).join(CompanyInfo)\<close>: the pairs of a filing and the
  company its foreign key names; a null foreign key joins nothing.
\<close>

type_synonym filing_row = "FilingInfo \<times> CompanyInfo"

definition join_filings :: "db \<Rightarrow> filing_row list" where
  "join_filings d =
     concat (map (\<lambda>f. map (\<lambda>c. (f, c))
                    (filter (\<lambda>c. filing_company_cik f = Some (company_cik c)) (companies d)))
            (filings d))"

text \<open>\<open>query_col.in_(query_terms)\<close>, written \<open>col_in\<close>: a null column is in no list.\<close>

definition col_in :: "(filing_row \<Rightarrow> string option) \<Rightarrow> string list \<Rightarrow> filing_row \<Rightarrow> bool" where
  "col_in query_col query_terms r =
     (case query_col r of None \<Rightarrow> False | Some v \<Rightarrow> v \<in> set query_terms)"

definition filter_join ::
  "(filing_row \<Rightarrow> string option) \<Rightarrow> string list \<Rightarrow> db \<Rightarrow> filing_row list" where
  "filter_join query_col query_terms d = filter (col_in query_col query_terms) (join_filings d)"

text \<open>
  \<open>[query_terms[i:i + 995] for i in range(0, len(query_terms), 995)]\<close>: the slice
  starts are the multiples of 995 below the length.
\<close>

definition range_step :: "nat \<Rightarrow> nat \<Rightarrow> nat list" where
  "range_step n k = map (\<lambda>i. i * k) [0 ..< (n + (k - 1)) div k]"

definition query_term_chunks :: "'a list \<Rightarrow> 'a list list" where
  "query_term_chunks query_terms =
     map (\<lambda>i. take 995 (drop i query_terms)) (range_step (length query_terms) 995)"

text \<open>
  Modelled from the spec: \<open>flatten\<close> of \<open>utilities\<close> is not among the source files; the
  spec says the per-chunk results are concatenated in chunk order.
\<close>

definition flatten :: "'a list list \<Rightarrow> 'a list" where
  "flatten xss = concat xss"

text \<open>The loop of lines 112 to 116: one query per chunk, its result appended.\<close>

fun chunk_loop ::
  "(filing_row \<Rightarrow> string option) \<Rightarrow> string list list \<Rightarrow> filing_row list list \<Rightarrow> session
    \<Rightarrow> exn + (filing_row list list \<times> session)" where
  "chunk_loop query_col [] query_return_list s = Inr (query_return_list, s)"
| "chunk_loop query_col (query_term_chunk # rest) query_return_list s =
     (case query s (filter_join query_col query_term_chunk) of
        Inl e \<Rightarrow> Inl e
      | Inr (res, s') \<Rightarrow> chunk_loop query_col rest (query_return_list @ [res]) s')"

definition select_filings ::
  "session \<Rightarrow> (filing_row \<Rightarrow> string option) \<Rightarrow> string list
    \<Rightarrow> exn + (filing_row list \<times> session)" where
  "select_filings s query_col query_terms =
     (if length query_terms < 999 then query s (filter_join query_col query_terms)
      else (case chunk_loop query_col (query_term_chunks query_terms) [] s of
              Inl e \<Rightarrow> Inl e
            | Inr (query_return_list, s') \<Rightarrow> Inr (flatten query_return_list, s')))"

text \<open>
  The reference the spec compares with: one query over the whole list, whatever its
  length.
\<close>

definition unchunked_select_filings ::
  "session \<Rightarrow> (filing_row \<Rightarrow> string option) \<Rightarrow> string list
    \<Rightarrow> exn + (filing_row list \<times> session)" where
  "unchunked_select_filings s query_col query_terms =
     query s (filter_join query_col query_terms)"

definition select_filings_by_ciks :: "session \<Rightarrow> string list \<Rightarrow> exn + (filing_row list \<times> session)" where
  "select_filings_by_ciks s cik_nums =
     select_filings s (\<lambda>r. Some (company_cik (snd r))) cik_nums"

definition select_filings_by_accessions ::
  "session \<Rightarrow> string list \<Rightarrow> exn + (filing_row list \<times> session)" where
  "select_filings_by_accessions s accession_nums =
     select_filings s (\<lambda>r. Some (filing_accession (fst r))) accession_nums"

definition select_filings_by_url :: "session \<Rightarrow> string list \<Rightarrow> exn + (filing_row list \<times> session)" where
  "select_filings_by_url s filing_urls = select_filings s (\<lambda>r. filing_url (fst r)) filing_urls"

section \<open>The distinct-cik lookups (lines 129 to 151)\<close>

text \<open>
  \<open>ilike\<close> is the store's case-insensitive \<open>LIKE\<close>: both sides are lower-cased (ASCII
  letters), then \<open>%\<close> in the pattern stands for any run of characters and \<open>_\<close> for any
  single one; there is no escape character. A null column matches nothing.
\<close>

fun like_match :: "string \<Rightarrow> string \<Rightarrow> bool" where
  "like_match [] [] = True"
| "like_match [] (c # cs) = False"
| "like_match (p # ps) [] = (p = CHR ''%'' \<and> like_match ps [])"
| "like_match (p # ps) (c # cs) =
     (if p = CHR ''%'' then like_match ps (c # cs) \<or> like_match (p # ps) cs
      else (p = CHR ''_'' \<or> p = c) \<and> like_match ps cs)"

definition ilike :: "string option \<Rightarrow> string \<Rightarrow> bool" where
  "ilike col query_term =
     (case col of None \<Rightarrow> False | Some v \<Rightarrow> like_match (lower query_term) (lower v))"

text \<open>
  \<open>_select_distinct_ciks\<close>: the query, then \<open>sys.exit(0)\<close> on an empty result, else the
  cik of every result row. An exception of the query's flush escapes.
\<close>

definition select_distinct_ciks ::
  "session \<Rightarrow> (CompanyInfo \<Rightarrow> string option) \<Rightarrow> string \<Rightarrow> session \<times> string list result" where
  "select_distinct_ciks s query_column query_term =
     (case query s (\<lambda>d. filter (\<lambda>c. ilike (query_column c) query_term) (companies d)) of
        Inl e \<Rightarrow> (s, Raised e)
      | Inr (distinct_ciks, s') \<Rightarrow>
          if distinct_ciks = [] then (s', Exited 0)
          else (s', Returned (map company_cik distinct_ciks)))"

definition select_ciks_by_state :: "session \<Rightarrow> string \<Rightarrow> session \<times> string list result" where
  "select_ciks_by_state s state_name = select_distinct_ciks s company_state state_name"

definition select_ciks_by_sic :: "session \<Rightarrow> string \<Rightarrow> session \<times> string list result" where
  "select_ciks_by_sic s sic = select_distinct_ciks s company_sic sic"

definition select_ciks_by_ticker :: "session \<Rightarrow> string \<Rightarrow> session \<times> string list result" where
  "select_ciks_by_ticker s ticker = select_distinct_ciks s company_ticker ticker"

definition select_ciks_by_name :: "session \<Rightarrow> string \<Rightarrow> session \<times> string list result" where
  "select_ciks_by_name s name = select_distinct_ciks s company_name (''%'' @ name @ ''%'')"

text \<open>
  The spec's two notions of a match, to compare \<open>ilike\<close> with: equality with the
  column, and containment in the column without regard to letter case.
\<close>

definition exact_match :: "string option \<Rightarrow> string \<Rightarrow> bool" where
  "exact_match col query_term = (col = Some query_term)"

definition ci_equal :: "string option \<Rightarrow> string \<Rightarrow> bool" where
  "ci_equal col query_term =
     (case col of None \<Rightarrow> False | Some v \<Rightarrow> lower v = lower query_term)"

definition ci_substring :: "string option \<Rightarrow> string \<Rightarrow> bool" where
  "ci_substring col query_term =
     (case col of None \<Rightarrow> False | Some v \<Rightarrow> sublist (lower query_term) (lower v))"

definition wildcard_free :: "string \<Rightarrow> bool" where
  "wildcard_free t = (CHR ''%'' \<notin> set t \<and> CHR ''_'' \<notin> set t)"

text \<open>
  The lookup as the spec words it, for a given notion of a match: the cik of every
  matching company, and the process exit when there is none.
\<close>

definition lookup_ciks_where ::
  "session \<Rightarrow> (CompanyInfo \<Rightarrow> bool) \<Rightarrow> session \<times> string list result" where
  "lookup_ciks_where s matches =
     (case query s (\<lambda>d. filter matches (companies d)) of
        Inl e \<Rightarrow> (s, Raised e)
      | Inr (found, s') \<Rightarrow>
          if found = [] then (s', Exited 0) else (s', Returned (map company_cik found)))"

section \<open>Filing data ingestion (lines 164 to 215)\<close>

text \<open>
  \<open>str.replace(old, new)\<close>: the occurrences of \<open>old\<close> are replaced from the left and do
  not overlap; \<open>skip\<close> counts the characters left of the occurrence just replaced.
\<close>

fun replace_from :: "string \<Rightarrow> string \<Rightarrow> nat \<Rightarrow> string \<Rightarrow> string" where
  "replace_from old new skip [] = []"
| "replace_from old new (Suc skip) (c # cs) = replace_from old new skip cs"
| "replace_from old new 0 (c # cs) =
     (if take (length old) (c # cs) = old then new @ replace_from old new (length old - 1) cs
      else c # replace_from old new 0 cs)"

definition str_replace :: "string \<Rightarrow> string \<Rightarrow> string \<Rightarrow> string" where
  "str_replace old new s =
     (if old = [] then new @ concat (map (\<lambda>c. c # new) s) else replace_from old new 0 s)"

text \<open>
  \<open>prep_date\<close>: a cell that is no string has no \<open>replace\<close>, the \<open>AttributeError\<close> is
  caught and \<open>False\<close> returned, here \<open>None\<close>.
\<close>

definition prep_date :: "cell \<Rightarrow> string option" where
  "prep_date date_str =
     (case date_str of CStr s \<Rightarrow> Some (str_replace ''USD ($)'' [] s) | _ \<Rightarrow> None)"

text \<open>
  A calendar date and \<open>strftime(_, '%Y%m%d')\<close>: the year on four digits, month and day on
  two, zero-padded.
\<close>

record date =
  year :: nat
  month :: nat
  day :: nat

definition zero_pad :: "nat \<Rightarrow> string \<Rightarrow> string" where
  "zero_pad w s = replicate (w - length s) CHR ''0'' @ s"

definition strftime_Ymd :: "date \<Rightarrow> string" where
  "strftime_Ymd d =
     zero_pad 4 (decimal (year d)) @ zero_pad 2 (decimal (month d)) @ zero_pad 2 (decimal (day d))"

text \<open>\<open>data[0, column_num]\<close>: an \<open>IndexError\<close> when the array has no row or no such column.\<close>

definition header_cell :: "array2 \<Rightarrow> nat \<Rightarrow> exn + cell" where
  "header_cell data column_num =
     (case rows data of
        [] \<Rightarrow> Inl IndexError
      | h # _ \<Rightarrow> if column_num < length h then Inr (h ! column_num) else Inl IndexError)"

text \<open>
  The loop of lines 189 to 200 over \<open>data[1:]\<close>: a row whose last cell is falsy is
  skipped, any other row appends a record. The reads \<open>row[-1]\<close>, \<open>row[0]\<close> and
  \<open>row[column_num]\<close> raise \<open>IndexError\<close> out of range.
\<close>

fun build_rows ::
  "string \<Rightarrow> string \<Rightarrow> string \<Rightarrow> nat \<Rightarrow> cell list list \<Rightarrow> FilingData list
    \<Rightarrow> exn + FilingData list" where
  "build_rows accession period_str ftype column_num [] rows_to_insert = Inr rows_to_insert"
| "build_rows accession period_str ftype column_num (row # rest) rows_to_insert =
     (if row = [] then Inl IndexError
      else if \<not> truthy (last row) then
        build_rows accession period_str ftype column_num rest rows_to_insert
      else if column_num < length row then
        build_rows accession period_str ftype column_num rest
          (rows_to_insert @
            [\<lparr>data_filing_accession = accession, filing_term = row ! 0, filing_type = ftype,
              filing_value = row ! column_num, value_period = period_str\<rparr>])
      else Inl IndexError)"

text \<open>
  Lines 205 to 207: every queried filing object gets \<open>parsed_data = True\<close>; the objects
  are the rows of the transaction.
\<close>

definition set_parsed :: "FilingInfo list \<Rightarrow> db \<Rightarrow> db" where
  "set_parsed cs d =
     d\<lparr>filings := map (\<lambda>f. if f \<in> set cs then f\<lparr>parsed_data := Some True\<rparr> else f) (filings d)\<rparr>"

text \<open>
  One pass of the loop over the data columns. The date parser \<open>dateutil.parser.parse\<close>
  is the parameter \<open>parse\<close>. \<open>None\<close> in the second component means the loop goes on,
  \<open>Some r\<close> that the call ends with \<open>r\<close>.
\<close>

definition column_step ::
  "(string \<Rightarrow> exn + date) \<Rightarrow> string \<Rightarrow> string \<Rightarrow> array2 \<Rightarrow> nat \<Rightarrow> session
    \<Rightarrow> session \<times> bool result option" where
  "column_step parse accession ftype data column_num s =
     (case header_cell data column_num of
        Inl e \<Rightarrow>
          if e = TypeError \<or> e = ValueError \<or> e = IndexError
          then (rollback s, Some (Returned False)) else (s, Some (Raised e))
      | Inr c \<Rightarrow>
         (case prep_date c of
            None \<Rightarrow> (s, Some (Returned False))
          | Some prepped_date \<Rightarrow>
              if prepped_date = [] then (s, Some (Returned False))
              else
               (case parse prepped_date of
                  Inl e \<Rightarrow>
                    if e = TypeError \<or> e = ValueError \<or> e = IndexError
                    then (rollback s, Some (Returned False)) else (s, Some (Raised e))
                | Inr d \<Rightarrow>
                   (case build_rows accession (strftime_Ymd d) ftype column_num
                           (tl (rows data)) [] of
                      Inl e \<Rightarrow> (s, Some (Raised e))
                    | Inr rows_to_insert \<Rightarrow>
                       (case query (add_all (map EData rows_to_insert) s)
                               (\<lambda>d. filter (\<lambda>f. filing_accession f = accession) (filings d)) of
                          Inl e \<Rightarrow>
                            if e = IntegrityError \<or> e = StatementError
                            then (rollback (add_all (map EData rows_to_insert) s),
                                  Some (Returned False))
                            else (add_all (map EData rows_to_insert) s, Some (Raised e))
                        | Inr (cs, s') \<Rightarrow>
                           (case commit (s'\<lparr>working := set_parsed cs (working s')\<rparr>) of
                              Inl e \<Rightarrow> (s'\<lparr>working := set_parsed cs (working s')\<rparr>,
                                         Some (Raised e))
                            | Inr s'' \<Rightarrow> (s'', None)))))))"

fun columns_loop ::
  "(string \<Rightarrow> exn + date) \<Rightarrow> string \<Rightarrow> string \<Rightarrow> array2 \<Rightarrow> nat list \<Rightarrow> session
    \<Rightarrow> session \<times> bool result" where
  "columns_loop parse accession ftype data [] s = (s, Returned True)"
| "columns_loop parse accession ftype data (column_num # rest) s =
     (case column_step parse accession ftype data column_num s of
        (s', Some r) \<Rightarrow> (s', r)
      | (s', None) \<Rightarrow> columns_loop parse accession ftype data rest s')"

definition set_filing_data ::
  "(string \<Rightarrow> exn + date) \<Rightarrow> session \<Rightarrow> filing_row \<Rightarrow> array2 \<Rightarrow> string
    \<Rightarrow> session \<times> bool result" where
  "set_filing_data parse s filing data ftype =
     columns_loop parse (filing_accession (fst filing)) ftype data [1 ..< ncols data] s"

text \<open>
  The Float column \<open>filing_value\<close> read back as a number: a number is itself and a
  string of decimal digits is the number it writes. Other texts are not covered.
\<close>

fun digits_value :: "string \<Rightarrow> nat \<Rightarrow> nat option" where
  "digits_value [] acc = Some acc"
| "digits_value (c # cs) acc =
     (if c \<in> set ''0123456789'' then digits_value cs (10 * acc + (of_char c - 48))
      else None)"

definition float_column :: "cell \<Rightarrow> int option" where
  "float_column v =
     (case v of
        CNone \<Rightarrow> None
      | CNum n \<Rightarrow> Some n
      | CStr t \<Rightarrow> if t = [] then None else map_option int (digits_value t 0))"


section \<open>Sample data\<close>

text \<open>
  What \<open>dateutil.parser.parse\<close> does on the header texts of the samples below: the two
  year ends parse, with or without the blank that removing \<open>USD ($)\<close> leaves in front;
  \<open>n/a\<close> is no date and raises its \<open>ParserError\<close>, a \<open>ValueError\<close>. No other text is
  read from this table.
\<close>

definition sample_parse :: "string \<Rightarrow> exn + date" where
  "sample_parse t =
     (if t = '' Dec. 31, 2020'' \<or> t = ''Dec. 31, 2020''
      then Inr \<lparr>year = 2020, month = 12, day = 31\<rparr>
      else if t = '' Dec. 31, 2019'' \<or> t = ''Dec. 31, 2019''
      then Inr \<lparr>year = 2019, month = 12, day = 31\<rparr>
      else Inl ValueError)"

definition empty_db :: db where
  "empty_db = \<lparr>sics = [], companies = [], filings = [], filing_data = []\<rparr>"

text \<open>\<open>make_session\<close> on an empty store.\<close>

definition new_session :: session where
  "new_session = \<lparr>committed = empty_db, working = empty_db, pending = []\<rparr>"

text \<open>\<open>CompanyInfo(company_cik="0001", company_name="Acme")\<close> and the filing \<open>A1\<close> of it.\<close>

definition acme :: CompanyInfo where
  "acme = \<lparr>company_cik = ''0001'', company_name = Some ''Acme'', company_ticker = None,
            company_sic = None, company_state = None, company_info_attempted = None\<rparr>"

definition filing_a1 :: FilingInfo where
  "filing_a1 =
     \<lparr>filing_company_cik = Some ''0001'', filing_accession = ''A1'', form = None,
      period = None, filed = None, filing_url = None, excel_url = None, excel_path = None,
      parsed_data = None, parsing_attempted = None\<rparr>"

text \<open>The session after \<open>insert_objects\<close> of the company and of the filing.\<close>

definition staged :: session where
  "staged =
     insert_objects (Single (EFiling filing_a1))
       (insert_objects (Single (ECompany acme)) new_session)"

text \<open>The store with both rows committed and nothing pending.\<close>

definition stored_db :: db where
  "stored_db = \<lparr>sics = [], companies = [acme], filings = [filing_a1], filing_data = []\<rparr>"

definition stored :: session where
  "stored = \<lparr>committed = stored_db, working = stored_db, pending = []\<rparr>"

definition revenue_sheet :: array2 where
  "revenue_sheet =
     \<lparr>ncols = 2,
      rows = [[CStr ''Item'', CStr ''USD ($) Dec. 31, 2020''],
              [CStr ''Revenue'', CStr ''100'']]\<rparr>"

definition one_column_sheet :: array2 where
  "one_column_sheet = \<lparr>ncols = 1, rows = [[CStr ''Item''], [CStr ''Revenue'']]\<rparr>"


definition bad_second_header_sheet :: array2 where
  "bad_second_header_sheet =
     \<lparr>ncols = 3,
      rows = [[CStr ''Item'', CStr ''Dec. 31, 2020'', CStr ''n/a''],
              [CStr ''Revenue'', CStr ''100'', CStr ''90'']]\<rparr>"

text \<open>The data point of the revenue row, and the store once that row is ingested.\<close>

definition revenue_point :: FilingData where
  "revenue_point =
     \<lparr>data_filing_accession = ''A1'', filing_term = CStr ''Revenue'', filing_type = ''10-K'',
      filing_value = CStr ''100'', value_period = ''20201231''\<rparr>"

definition ingested_db :: db where
  "ingested_db =
     \<lparr>sics = [], companies = [acme], filings = [filing_a1\<lparr>parsed_data := Some True\<rparr>],
      filing_data = [revenue_point]\<rparr>"

definition ingested :: session where
  "ingested = \<lparr>committed = ingested_db, working = ingested_db, pending = []\<rparr>"

text \<open>
  Two sheets with two periods: one whose row \<open>Debt\<close> has a value for the first period
  only, one whose row \<open>Costs\<close> has a value for the last period only.
\<close>

definition two_period_sheet :: array2 where
  "two_period_sheet =
     \<lparr>ncols = 3,
      rows = [[CStr ''Item'', CStr ''Dec. 31, 2020'', CStr ''Dec. 31, 2019''],
              [CStr ''Revenue'', CStr ''100'', CStr ''90''],
              [CStr ''Debt'', CStr ''7'', CStr []]]\<rparr>"

definition blank_first_period_sheet :: array2 where
  "blank_first_period_sheet =
     \<lparr>ncols = 3,
      rows = [[CStr ''Item'', CStr ''Dec. 31, 2020'', CStr ''Dec. 31, 2019''],
              [CStr ''Costs'', CStr [], CStr ''5'']]\<rparr>"

definition revenue_2019_point :: FilingData where
  "revenue_2019_point =
     \<lparr>data_filing_accession = ''A1'', filing_term = CStr ''Revenue'', filing_type = ''10-K'',
      filing_value = CStr ''90'', value_period = ''20191231''\<rparr>"

text \<open>The session \<open>staged\<close> once a query has flushed it: both rows written, none committed.\<close>

definition flushed :: session where
  "flushed = \<lparr>committed = empty_db, working = stored_db, pending = []\<rparr>"

text \<open>A company with every searched column filled in, alone in a store.\<close>

definition apple :: CompanyInfo where
  "apple = \<lparr>company_cik = ''0000320193'', company_name = Some ''Apple Inc.'',
             company_ticker = Some ''AAPL'', company_sic = Some ''3571'',
             company_state = Some ''CA'', company_info_attempted = None\<rparr>"

definition apple_db :: db where
  "apple_db = \<lparr>sics = [], companies = [apple], filings = [], filing_data = []\<rparr>"

definition apple_store :: session where
  "apple_store = \<lparr>committed = apple_db, working = apple_db, pending = []\<rparr>"

section \<open>The session's operations\<close>

lemma flush_Inr:
  "flush s = Inr s' \<Longrightarrow>
     working s' = stage_all (pending s) (working s) \<and> pending s' = [] \<and>
     committed s' = committed s \<and> integrity (working s')"
  by (auto simp: flush_def integrity_def Let_def split: if_splits)

lemma flush_Inl: "flush s = Inl e \<Longrightarrow> e = IntegrityError \<or> e = StatementError"
  by (auto simp: flush_def Let_def split: if_splits)

lemma flush_clean: "pending s = [] \<Longrightarrow> integrity (working s) \<Longrightarrow> flush s = Inr s"
  by (simp add: flush_def integrity_def)

lemma flush_again: "flush s = Inr s' \<Longrightarrow> flush s' = Inr s'"
  by (auto dest: flush_Inr intro: flush_clean)

lemma stage_all_append: "stage_all (es @ fs) d = stage_all fs (stage_all es d)"
  by (induction es arbitrary: d) auto

lemma stage_all_data:
  "stage_all (map EData xs) d = d\<lparr>filing_data := filing_data d @ xs\<rparr>"
  by (induction xs arbitrary: d) auto

section \<open>Ingestion: the single-column sheet\<close>

text \<open>
  C10. When the array has exactly one column, \<open>range(1, num_columns)\<close> is empty: the
  call returns true and the session it returns is the one it was given, so no record
  is constructed or staged and no filing's parsed flag changes.
\<close>

theorem set_filing_data_single_column:
  "ncols data = 1 \<Longrightarrow> set_filing_data parse s filing data ftype = (s, Returned True)"
  by (simp add: set_filing_data_def)

theorem set_filing_data_single_column_witness:
  "ncols one_column_sheet = 1 \<and>
   set_filing_data sample_parse staged (filing_a1, acme) one_column_sheet ''10-K''
     = (staged, Returned True)"
  using set_filing_data_single_column
    [of one_column_sheet sample_parse staged "(filing_a1, acme)" "''10-K''"]
  by (simp add: one_column_sheet_def)

section \<open>Ingestion: one pass of the column loop\<close>

lemma build_rows_wf:
  "list_all (\<lambda>r. length r = n) rs \<Longrightarrow> j < n \<Longrightarrow>
   build_rows a p t j rs out =
     Inr (out @ map (\<lambda>row. \<lparr>data_filing_accession = a, filing_term = row ! 0, filing_type = t,
                        filing_value = row ! j, value_period = p\<rparr>)
                (filter (\<lambda>row. truthy (last row)) rs))"
  by (induction rs arbitrary: out) auto

lemma map_accession_set_parsed:
  "map filing_accession (filings (set_parsed cs d)) = map filing_accession (filings d)"
  by (simp add: set_parsed_def comp_def)

lemma map_accession_mark:
  "map (filing_accession \<circ> (\<lambda>f. if f \<in> set cs then f\<lparr>parsed_data := Some True\<rparr> else f)) fs
     = map filing_accession fs"
  by (induction fs) auto

lemma integrity_set_parsed: "integrity d \<Longrightarrow> integrity (set_parsed cs d)"
  by (simp add: integrity_def parent_integrity_def data_integrity_def set_parsed_def
        map_accession_mark)

lemma commit_clean:
  "pending s = [] \<Longrightarrow> integrity (working s) \<Longrightarrow> commit s = Inr (s\<lparr>committed := working s\<rparr>)"
  by (simp add: commit_def flush_clean)

lemma column_step_parsed:
  assumes "header_cell data j = Inr c" "prep_date c = Some p" "p \<noteq> []" "parse p = Inr d"
    "build_rows a (strftime_Ymd d) t j (tl (rows data)) [] = Inr rws"
  shows "column_step parse a t data j s =
     (case flush (add_all (map EData rws) s) of
        Inl e \<Rightarrow> (rollback (add_all (map EData rws) s), Some (Returned False))
      | Inr s1 \<Rightarrow>
          (s1\<lparr>working := set_parsed (filter (\<lambda>f. filing_accession f = a) (filings (working s1))) (working s1),
              committed := set_parsed (filter (\<lambda>f. filing_accession f = a) (filings (working s1))) (working s1)\<rparr>,
           None))"
proof (cases "flush (add_all (map EData rws) s)")
  case (Inl e)
  then have "e = IntegrityError \<or> e = StatementError" by (rule flush_Inl)
  with Inl assms show ?thesis by (auto simp: column_step_def query_def)
next
  case (Inr s1)
  let ?W = "set_parsed (filter (\<lambda>f. filing_accession f = a) (filings (working s1))) (working s1)"
  from Inr have p: "pending s1 = []" and i: "integrity (working s1)"
    by (auto dest: flush_Inr)
  have "commit (s1\<lparr>working := ?W\<rparr>) = Inr (s1\<lparr>working := ?W, committed := ?W\<rparr>)"
    using commit_clean [of "s1\<lparr>working := ?W\<rparr>"] p i by (simp add: integrity_set_parsed)
  with Inr assms show ?thesis by (simp add: column_step_def query_def)
qed

lemma column_step_unparsed:
  assumes "header_cell data j = Inr c" "prep_date c = Some p" "p \<noteq> []" "parse p = Inl e"
    "e = TypeError \<or> e = ValueError \<or> e = IndexError"
  shows "column_step parse a t data j s = (rollback s, Some (Returned False))"
  using assms by (simp add: column_step_def)

lemma column_step_stop:
  "column_step parse a t data j s = (s', Some r) \<Longrightarrow> r \<noteq> Returned True"
  by (auto simp: column_step_def query_def commit_def split: sum.splits option.splits if_splits prod.splits)

lemma columns_loop_append:
  "columns_loop parse a t data (pre @ post) s =
     (case columns_loop parse a t data pre s of
        (s1, Returned True) \<Rightarrow> columns_loop parse a t data post s1
      | (s1, r) \<Rightarrow> (s1, r))"
proof (induction pre arbitrary: s)
  case Nil
  show ?case by simp
next
  case (Cons j pre)
  show ?case
  proof (cases "column_step parse a t data j s")
    case (Pair s' o')
    show ?thesis
    proof (cases o')
      case None
      with Pair Cons show ?thesis by simp
    next
      case (Some r)
      with Pair have "r \<noteq> Returned True" by (auto dest: column_step_stop)
      with Pair Some show ?thesis by (cases r) (auto split: bool.splits)
    qed
  qed
qed

lemma upt_split: "1 \<le> j \<Longrightarrow> j < n \<Longrightarrow> [1..<n] = [1..<j] @ j # [Suc j..<n]"
  by (metis less_imp_le_nat upt_add_eq_append upt_conv_Cons le_Suc_ex)

lemma filing_data_stage_all_data:
  "filing_data (stage_all (es @ map EData xs) d) = filing_data (stage_all es d) @ xs"
  by (simp add: stage_all_append stage_all_data)

lemma header_cell_Inl: "header_cell data j = Inl e \<Longrightarrow> e = IndexError"
  by (auto simp: header_cell_def split: list.splits if_splits)

lemma column_step_None:
  assumes "column_step parse a t data j s = (s', None)"
  obtains c p d rws s1 where
    "header_cell data j = Inr c" "prep_date c = Some p" "p \<noteq> []" "parse p = Inr d"
    "build_rows a (strftime_Ymd d) t j (tl (rows data)) [] = Inr rws"
    "flush (add_all (map EData rws) s) = Inr s1"
    "s' = s1\<lparr>working := set_parsed (filter (\<lambda>f. filing_accession f = a) (filings (working s1))) (working s1),
              committed := set_parsed (filter (\<lambda>f. filing_accession f = a) (filings (working s1))) (working s1)\<rparr>"
proof -
  from assms obtain c where c: "header_cell data j = Inr c"
    by (cases "header_cell data j") (auto simp: column_step_def split: if_splits)
  from assms c obtain p where p: "prep_date c = Some p" "p \<noteq> []"
    by (cases "prep_date c") (auto simp: column_step_def split: if_splits)
  from assms c p obtain d where d: "parse p = Inr d"
    by (cases "parse p") (auto simp: column_step_def split: if_splits)
  from assms c p d obtain rws where
    rws: "build_rows a (strftime_Ymd d) t j (tl (rows data)) [] = Inr rws"
    by (cases "build_rows a (strftime_Ymd d) t j (tl (rows data)) []")
       (auto simp: column_step_def split: if_splits)
  note eq = column_step_parsed [where parse = parse and p = p and s = s, OF c p d rws]
  from assms eq obtain s1 where s1: "flush (add_all (map EData rws) s) = Inr s1"
    by (cases "flush (add_all (map EData rws) s)") auto
  with assms eq have "s' = s1\<lparr>working := set_parsed (filter (\<lambda>f. filing_accession f = a) (filings (working s1))) (working s1),
              committed := set_parsed (filter (\<lambda>f. filing_accession f = a) (filings (working s1))) (working s1)\<rparr>"
    by simp
  with c p d rws s1 show thesis by (rule that)
qed

section \<open>Ingestion: a write that violates integrity\<close>

text \<open>
  C3. Let the columns before \<open>j\<close> have gone through, leaving the session \<open>s1\<close>, and
  let column \<open>j\<close> have a header that parses and rows that build. If writing the staged
  records violates integrity (the flush inside the \<open>try\<close> raises), the call returns
  false, no exception escapes, and the session is rolled back: its transaction is the
  committed store again and nothing is staged.
\<close>

theorem integrity_violation_caught:
  assumes "1 \<le> j" "j < ncols data"
    and "columns_loop parse (filing_accession (fst filing)) ftype data [1..<j] s = (s1, Returned True)"
    and "header_cell data j = Inr c" "prep_date c = Some p" "p \<noteq> []" "parse p = Inr d"
    and "build_rows (filing_accession (fst filing)) (strftime_Ymd d) ftype j (tl (rows data)) []
           = Inr rows_to_insert"
    and "flush (add_all (map EData rows_to_insert) s1) = Inl e"
  shows "set_filing_data parse s filing data ftype
           = (rollback (add_all (map EData rows_to_insert) s1), Returned False) \<and>
         working (rollback (add_all (map EData rows_to_insert) s1)) = committed s1 \<and>
         pending (rollback (add_all (map EData rows_to_insert) s1)) = []"
proof -
  have "column_step parse (filing_accession (fst filing)) ftype data j s1
          = (rollback (add_all (map EData rows_to_insert) s1), Some (Returned False))"
    using assms(4-9) by (simp add: column_step_parsed)
  moreover have "[1..<ncols data] = [1..<j] @ j # [Suc j..<ncols data]"
    using assms(1,2) by (rule upt_split)
  ultimately have "set_filing_data parse s filing data ftype
           = (rollback (add_all (map EData rows_to_insert) s1), Returned False)"
    using assms(3) by (simp add: set_filing_data_def columns_loop_append)
  then show ?thesis by (simp add: rollback_def add_all_def)
qed

theorem integrity_violation_caught_witness:
  "flush (add_all (map EData [revenue_point]) ingested) = Inl IntegrityError \<and>
   set_filing_data sample_parse ingested (filing_a1, acme) revenue_sheet ''10-K''
     = (ingested, Returned False)"
proof -
  have h1: "(1::nat) \<le> 1" and h2: "1 < ncols revenue_sheet"
    by (simp_all add: revenue_sheet_def)
  have h3: "columns_loop sample_parse (filing_accession (fst (filing_a1, acme))) ''10-K''
              revenue_sheet [1..<1] ingested = (ingested, Returned True)"
    by simp
  have h4: "header_cell revenue_sheet 1 = Inr (CStr ''USD ($) Dec. 31, 2020'')"
    by code_simp
  have h5: "prep_date (CStr ''USD ($) Dec. 31, 2020'') = Some '' Dec. 31, 2020''"
    by code_simp
  have h6: "'' Dec. 31, 2020'' \<noteq> []" by simp
  have h7: "sample_parse '' Dec. 31, 2020'' = Inr \<lparr>year = 2020, month = 12, day = 31\<rparr>"
    by code_simp
  have h8: "build_rows (filing_accession (fst (filing_a1, acme)))
              (strftime_Ymd \<lparr>year = 2020, month = 12, day = 31\<rparr>) ''10-K'' 1
              (tl (rows revenue_sheet)) [] = Inr [revenue_point]"
    by code_simp
  have h9: "flush (add_all (map EData [revenue_point]) ingested) = Inl IntegrityError"
    by code_simp
  have r: "rollback (add_all (map EData [revenue_point]) ingested) = ingested"
    by code_simp
  from integrity_violation_caught [OF h1 h2 h3 h4 h5 h6 h7 h8 h9] h9 r show ?thesis
    by simp
qed

section \<open>Ingestion: which rows become data points\<close>

text \<open>
  For a well-formed array and a column \<open>j\<close> of it, the records built for that column
  are, in row order, one per data row whose last cell is truthy, whatever the row
  holds at index \<open>j\<close>: each record's value is the row's cell at index \<open>j\<close>, its term
  the row's first cell. When the pass for the column commits, these records are what
  it adds to the stored data points.
\<close>

lemma rows_kept_by_last_cell:
  assumes "wf_array data" "j < ncols data"
  shows "build_rows accession period_str ftype j (tl (rows data)) [] =
           Inr (map (\<lambda>row. \<lparr>data_filing_accession = accession, filing_term = row ! 0,
                             filing_type = ftype, filing_value = row ! j,
                             value_period = period_str\<rparr>)
                  (filter (\<lambda>row. truthy (last row)) (tl (rows data)))) \<and>
         (column_step parse accession ftype data j s = (s', None) \<longrightarrow>
            (\<exists>d. filing_data (committed s') =
                   filing_data (stage_all (pending s) (working s)) @
                   map (\<lambda>row. \<lparr>data_filing_accession = accession, filing_term = row ! 0,
                                filing_type = ftype, filing_value = row ! j,
                                value_period = strftime_Ymd d\<rparr>)
                     (filter (\<lambda>row. truthy (last row)) (tl (rows data)))))"
proof -
  from assms(1) have wf: "list_all (\<lambda>r. length r = ncols data) (tl (rows data))"
    by (cases "rows data") (auto simp: wf_array_def)
  have build: "build_rows accession q ftype j (tl (rows data)) [] =
           Inr (map (\<lambda>row. \<lparr>data_filing_accession = accession, filing_term = row ! 0,
                             filing_type = ftype, filing_value = row ! j,
                             value_period = q\<rparr>)
                  (filter (\<lambda>row. truthy (last row)) (tl (rows data))))" for q
    using build_rows_wf [OF wf assms(2), of accession q ftype "[]"] by simp
  have "\<exists>d. filing_data (committed s') =
                   filing_data (stage_all (pending s) (working s)) @
                   map (\<lambda>row. \<lparr>data_filing_accession = accession, filing_term = row ! 0,
                                filing_type = ftype, filing_value = row ! j,
                                value_period = strftime_Ymd d\<rparr>)
                     (filter (\<lambda>row. truthy (last row)) (tl (rows data)))"
    if "column_step parse accession ftype data j s = (s', None)"
  proof -
    from that obtain c p d rws s1 where
      d: "build_rows accession (strftime_Ymd d) ftype j (tl (rows data)) [] = Inr rws"
      and f: "flush (add_all (map EData rws) s) = Inr s1"
      and s': "s' = s1\<lparr>working := set_parsed (filter (\<lambda>f. filing_accession f = accession) (filings (working s1))) (working s1),
              committed := set_parsed (filter (\<lambda>f. filing_accession f = accession) (filings (working s1))) (working s1)\<rparr>"
      by (rule column_step_None)
    from f have "working s1 = stage_all (pending s @ map EData rws) (working s)"
      by (auto dest: flush_Inr simp: add_all_def)
    then have "filing_data (committed s') = filing_data (stage_all (pending s) (working s)) @ rws"
      using s' by (simp add: set_parsed_def filing_data_stage_all_data)
    with d build [of "strftime_Ymd d"] show ?thesis by auto
  qed
  with build show ?thesis by blast
qed

text \<open>
  C6. The test of line 192 reads the last cell of the row for every column, not the
  value that is about to be inserted (the comment on line 191 names the values
  field). On a sheet with two periods, the row \<open>Debt\<close> holds \<open>7\<close> for the first period
  and nothing for the last: the call returns true and commits the two data points of
  the row \<open>Revenue\<close>, and the non-empty value \<open>7\<close> is in no data point.
\<close>

theorem value_dropped_when_last_cell_blank:
  "rows two_period_sheet ! 2 = [CStr ''Debt'', CStr ''7'', CStr []] \<and>
   truthy (rows two_period_sheet ! 2 ! 1) \<and>
   snd (set_filing_data sample_parse stored (filing_a1, acme) two_period_sheet ''10-K'')
     = Returned True \<and>
   filing_data (committed
      (fst (set_filing_data sample_parse stored (filing_a1, acme) two_period_sheet ''10-K'')))
     = [revenue_point, revenue_2019_point] \<and>
   filter (\<lambda>x. filing_term x = CStr ''Debt'') (filing_data (committed
      (fst (set_filing_data sample_parse stored (filing_a1, acme) two_period_sheet ''10-K''))))
     = []"
  by code_simp

text \<open>
  The other way round, a row whose value for the first period is blank and whose last
  cell is not has a record built for the first period, with the blank as its value.
  The blank does not bind as a \<open>Float\<close>, so the write fails, the call rolls back and
  returns false, and nothing of the sheet is stored.
\<close>

lemma blank_value_built_when_last_cell_filled:
  "build_rows ''A1'' ''20201231'' ''10-K'' 1 (tl (rows blank_first_period_sheet)) []
     = Inr [\<lparr>data_filing_accession = ''A1'', filing_term = CStr ''Costs'',
             filing_type = ''10-K'', filing_value = CStr [], value_period = ''20201231''\<rparr>] \<and>
   set_filing_data sample_parse stored (filing_a1, acme) blank_first_period_sheet ''10-K''
     = (stored, Returned False)"
  by code_simp

section \<open>Ingestion: a header that does not parse\<close>

text \<open>
  When the columns before \<open>j\<close> have gone through and the parser raises a type, value
  or index error on the cleaned header of column \<open>j\<close>, the call rolls the session back
  and returns false.
\<close>

lemma unparseable_header_returns_false:
  assumes "1 \<le> j" "j < ncols data"
    and "columns_loop parse (filing_accession (fst filing)) ftype data [1..<j] s = (s1, Returned True)"
    and "header_cell data j = Inr c" "prep_date c = Some p" "p \<noteq> []" "parse p = Inl e"
    and "e = TypeError \<or> e = ValueError \<or> e = IndexError"
  shows "set_filing_data parse s filing data ftype = (rollback s1, Returned False)"
proof -
  have "column_step parse (filing_accession (fst filing)) ftype data j s1
          = (rollback s1, Some (Returned False))"
    using assms(4-8) by (rule column_step_unparsed)
  moreover have "[1..<ncols data] = [1..<j] @ j # [Suc j..<ncols data]"
    using assms(1,2) by (rule upt_split)
  ultimately show ?thesis
    using assms(3) by (simp add: set_filing_data_def columns_loop_append)
qed

text \<open>
  C1. The rollback reaches only what is not yet committed, and the loop commits after
  every column (line 213). On the sheet whose first data header is a date and whose
  second is \<open>n/a\<close>, the call returns false and the data point of the first column, with
  the filing's parsed flag, stays in the committed store, which held no data point
  before the call.
\<close>

theorem unparseable_later_header_keeps_earlier_rows:
  "set_filing_data sample_parse stored (filing_a1, acme) bad_second_header_sheet ''10-K''
     = (ingested, Returned False) \<and>
   filing_data (committed stored) = [] \<and>
   filing_data (committed ingested) = [revenue_point] \<and>
   map parsed_data (filings (committed ingested)) = [Some True]"
  by code_simp

section \<open>Ingestion: the end-to-end scenario\<close>

text \<open>
  C7. From an empty store, stage the company \<open>0001\<close> (Acme) and the filing \<open>A1\<close> of it,
  fetch the filing's result pair by its accession, and ingest the sheet with header
  row \<open>Item\<close>, \<open>USD ($) Dec. 31, 2020\<close> and the row \<open>Revenue\<close>, \<open>100\<close>. Given that the
  date parser reads the cleaned header \<open> Dec. 31, 2020\<close> as 31 December 2020, the call
  returns true and the committed store holds exactly one data point, with accession
  \<open>A1\<close>, term \<open>Revenue\<close>, the value cell \<open>100\<close> (the number 100 when the Float column
  is read) and period \<open>20201231\<close>, and the filing's parsed flag is true.
\<close>

theorem end_to_end:
  assumes "parse '' Dec. 31, 2020'' = Inr \<lparr>year = 2020, month = 12, day = 31\<rparr>"
  shows "select_filings_by_accessions staged [''A1''] = Inr ([(filing_a1, acme)], flushed) \<and>
         set_filing_data parse flushed (filing_a1, acme) revenue_sheet ftype =
           (\<lparr>committed = ingested_db\<lparr>filing_data := [revenue_point\<lparr>filing_type := ftype\<rparr>]\<rparr>,
             working = ingested_db\<lparr>filing_data := [revenue_point\<lparr>filing_type := ftype\<rparr>]\<rparr>,
             pending = []\<rparr>, Returned True) \<and>
         revenue_point\<lparr>filing_type := ftype\<rparr> =
           \<lparr>data_filing_accession = ''A1'', filing_term = CStr ''Revenue'', filing_type = ftype,
            filing_value = CStr ''100'', value_period = ''20201231''\<rparr> \<and>
         float_column (filing_value revenue_point) = Some 100 \<and>
         map parsed_data (filings ingested_db) = [Some True]"
proof -
  have q: "select_filings_by_accessions staged [''A1''] = Inr ([(filing_a1, acme)], flushed)"
    by code_simp
  have h: "header_cell revenue_sheet 1 = Inr (CStr ''USD ($) Dec. 31, 2020'')"
    by code_simp
  have p: "prep_date (CStr ''USD ($) Dec. 31, 2020'') = Some '' Dec. 31, 2020''"
    by code_simp
  have ne: "'' Dec. 31, 2020'' \<noteq> []" by simp
  have y: "strftime_Ymd \<lparr>year = 2020, month = 12, day = 31\<rparr> = ''20201231''"
    by code_simp
  have b: "build_rows ''A1'' ''20201231'' ftype 1 (tl (rows revenue_sheet)) []
             = Inr [revenue_point\<lparr>filing_type := ftype\<rparr>]"
    by (simp add: revenue_sheet_def revenue_point_def)
  have acc: "filing_accession (fst (filing_a1, acme)) = ''A1''"
    by (simp add: filing_a1_def)
  have fb: "float_bind_ok (CStr ''100'')" by code_simp
  have fl: "flush (add_all [EData (revenue_point\<lparr>filing_type := ftype\<rparr>)] flushed)
      = Inr \<lparr>committed = empty_db, working = stored_db\<lparr>filing_data := [revenue_point\<lparr>filing_type := ftype\<rparr>]\<rparr>, pending = []\<rparr>"
    using fb
    by (simp add: flush_def add_all_def flushed_def stored_db_def parent_integrity_def
          data_integrity_def revenue_point_def)
  have step: "column_step parse ''A1'' ftype revenue_sheet 1 flushed =
     (\<lparr>committed = ingested_db\<lparr>filing_data := [revenue_point\<lparr>filing_type := ftype\<rparr>]\<rparr>,
             working = ingested_db\<lparr>filing_data := [revenue_point\<lparr>filing_type := ftype\<rparr>]\<rparr>,
             pending = []\<rparr>, None)"
    using column_step_parsed [where parse = parse and s = flushed, OF h p ne assms, of "''A1''" ftype]
    unfolding y using b
    by (simp add: fl set_parsed_def stored_db_def ingested_db_def filing_a1_def)
  have cols: "[1..<ncols revenue_sheet] = [1]" by code_simp
  have "set_filing_data parse flushed (filing_a1, acme) revenue_sheet ftype =
           (\<lparr>committed = ingested_db\<lparr>filing_data := [revenue_point\<lparr>filing_type := ftype\<rparr>]\<rparr>,
             working = ingested_db\<lparr>filing_data := [revenue_point\<lparr>filing_type := ftype\<rparr>]\<rparr>,
             pending = []\<rparr>, Returned True)"
    unfolding set_filing_data_def acc cols using step by simp
  moreover have "float_column (filing_value revenue_point) = Some 100" by code_simp
  moreover have "map parsed_data (filings ingested_db) = [Some True]" by code_simp
  ultimately show ?thesis using q by (simp add: revenue_point_def)
qed

theorem end_to_end_witness:
  "sample_parse '' Dec. 31, 2020'' = Inr \<lparr>year = 2020, month = 12, day = 31\<rparr> \<and>
   select_filings_by_accessions staged [''A1''] = Inr ([(filing_a1, acme)], flushed) \<and>
   set_filing_data sample_parse flushed (filing_a1, acme) revenue_sheet ''10-K''
     = (ingested, Returned True) \<and>
   filing_data (committed ingested) = [revenue_point] \<and>
   map parsed_data (filings (committed ingested)) = [Some True]"
proof -
  have h: "sample_parse '' Dec. 31, 2020'' = Inr \<lparr>year = 2020, month = 12, day = 31\<rparr>"
    by code_simp
  have e: "\<lparr>committed = ingested_db\<lparr>filing_data := [revenue_point\<lparr>filing_type := ''10-K''\<rparr>]\<rparr>,
             working = ingested_db\<lparr>filing_data := [revenue_point\<lparr>filing_type := ''10-K''\<rparr>]\<rparr>,
             pending = []\<rparr> = ingested"
    by code_simp
  have d: "filing_data (committed ingested) = [revenue_point] \<and>
   map parsed_data (filings (committed ingested)) = [Some True]"
    by code_simp
  from end_to_end [where parse = sample_parse and ftype = "''10-K''", OF h] h e d
  show ?thesis by simp
qed

section \<open>The distinct-cik lookups: no match\<close>

text \<open>
  C9. Once the query has run (its flush succeeded), a lookup by state, industry code,
  ticker or name whose query matches no company ends the process with
  \<open>sys.exit(0)\<close>; and no lookup ever returns an empty list to its caller.
\<close>

theorem no_match_exits:
  assumes "flush s = Inr s'"
  shows "(filter (\<lambda>c. ilike (company_state c) t) (companies (working s')) = []
            \<longrightarrow> select_ciks_by_state s t = (s', Exited 0)) \<and>
         (filter (\<lambda>c. ilike (company_sic c) t) (companies (working s')) = []
            \<longrightarrow> select_ciks_by_sic s t = (s', Exited 0)) \<and>
         (filter (\<lambda>c. ilike (company_ticker c) t) (companies (working s')) = []
            \<longrightarrow> select_ciks_by_ticker s t = (s', Exited 0)) \<and>
         (filter (\<lambda>c. ilike (company_name c) (''%'' @ t @ ''%'')) (companies (working s')) = []
            \<longrightarrow> select_ciks_by_name s t = (s', Exited 0)) \<and>
         (\<forall>query_column query_term s''.
            select_distinct_ciks s query_column query_term \<noteq> (s'', Returned []))"
  using assms
  by (auto simp: select_ciks_by_state_def select_ciks_by_sic_def select_ciks_by_ticker_def
        select_ciks_by_name_def select_distinct_ciks_def query_def)

theorem no_match_exits_witness:
  "flush staged = Inr flushed \<and>
   filter (\<lambda>c. ilike (company_state c) ''CA'') (companies (working flushed)) = [] \<and>
   select_ciks_by_state staged ''CA'' = (flushed, Exited 0) \<and>
   filter (\<lambda>c. ilike (company_name c) (''%'' @ ''zeta'' @ ''%'')) (companies (working flushed)) = [] \<and>
   select_ciks_by_name staged ''zeta'' = (flushed, Exited 0)"
proof -
  have f: "flush staged = Inr flushed" by code_simp
  have a: "filter (\<lambda>c. ilike (company_state c) ''CA'') (companies (working flushed)) = []"
    by code_simp
  have b: "filter (\<lambda>c. ilike (company_name c) (''%'' @ ''zeta'' @ ''%'')) (companies (working flushed)) = []"
    by code_simp
  from no_match_exits [OF f, of "''CA''"] a
  have "select_ciks_by_state staged ''CA'' = (flushed, Exited 0)" by blast
  moreover from no_match_exits [OF f, of "''zeta''"] b
  have "select_ciks_by_name staged ''zeta'' = (flushed, Exited 0)" by blast
  ultimately show ?thesis using f a b by simp
qed

section \<open>The filtered join query: chunking\<close>

lemma range_step_Suc:
  "0 < k \<Longrightarrow> 0 < n \<Longrightarrow> range_step n k = 0 # map (\<lambda>i. i + k) (range_step (n - k) k)"
proof -
  assume k: "0 < k" and n: "0 < n"
  have m: "(n + (k - 1)) div k = Suc ((n - k + (k - 1)) div k)"
  proof (cases "k \<le> n")
    case True
    then have "n + (k - 1) = (n - k + (k - 1)) + k" by simp
    then have "(n + (k - 1)) div k = (n - k + (k - 1)) div k + 1"
      using k by (metis div_add_self2 less_numeral_extra(3))
    then show ?thesis by simp
  next
    case False
    then have "n - k = 0" by simp
    moreover have "(n + (k - 1)) div k = 1"
    proof -
      from False n k have "k \<le> n + (k - 1)" "n + (k - 1) < 2 * k" by auto
      then show ?thesis
        by (metis One_nat_def Suc_1 div_nat_eqI mult_Suc_right nat_mult_1_right mult.commute)
    qed
    moreover have "(k - 1) div k = 0" using k by simp
    ultimately show ?thesis by simp
  qed
  show ?thesis
    unfolding range_step_def m upt_rec [of 0 "Suc _"]
    by (simp add: map_Suc_upt [symmetric] comp_def del: upt_Suc)
qed

lemma query_term_chunks_rec:
  "query_term_chunks xs =
     (if xs = [] then [] else take 995 xs # query_term_chunks (drop 995 xs))"
proof (cases "xs = []")
  case True
  then show ?thesis by (simp add: query_term_chunks_def range_step_def)
next
  case False
  then have "0 < length xs" by simp
  then have "range_step (length xs) 995 = 0 # map (\<lambda>i. i + 995) (range_step (length xs - 995) 995)"
    by (simp add: range_step_Suc)
  with False show ?thesis
    by (simp add: query_term_chunks_def comp_def add.commute)
qed

lemma query_term_chunks_Nil: "query_term_chunks [] = []"
  by (simp add: query_term_chunks_def range_step_def)

lemma query_term_chunks_concat: "concat (query_term_chunks xs) = xs"
proof (induction "length xs" arbitrary: xs rule: less_induct)
  case less
  show ?case
  proof (cases "xs = []")
    case True
    then show ?thesis by (subst query_term_chunks_rec) simp
  next
    case False
    then have "length (drop 995 xs) < length xs" by simp
    then have "concat (query_term_chunks (drop 995 xs)) = drop 995 xs" by (rule less)
    with False show ?thesis by (subst query_term_chunks_rec) simp
  qed
qed

lemma query_term_chunks_sizes:
  "c \<in> set (query_term_chunks xs) \<Longrightarrow> 0 < length c \<and> length c \<le> 995"
proof (induction "length xs" arbitrary: xs rule: less_induct)
  case less
  show ?case
  proof (cases "xs = []")
    case True
    with less.prems show ?thesis by (simp add: query_term_chunks_Nil)
  next
    case False
    then have l: "length (drop 995 xs) < length xs" by simp
    from less.prems False have "c = take 995 xs \<or> c \<in> set (query_term_chunks (drop 995 xs))"
      by (simp add: query_term_chunks_rec [of xs])
    then show ?thesis
    proof
      assume "c = take 995 xs"
      with False show ?thesis by simp
    next
      assume "c \<in> set (query_term_chunks (drop 995 xs))"
      with l show ?thesis by (rule less.hyps)
    qed
  qed
qed

lemma chunks_999: "query_term_chunks (replicate 999 x) = [replicate 995 x, replicate 4 x]"
  by (simp add: query_term_chunks_rec [of "replicate 999 x"]
        query_term_chunks_rec [of "replicate 4 x"] query_term_chunks_Nil)

lemma query_clean:
  "pending s = [] \<Longrightarrow> integrity (working s) \<Longrightarrow> query s q = Inr (q (working s), s)"
  by (simp add: query_def flush_clean)

lemma chunk_loop_clean:
  "pending s = [] \<Longrightarrow> integrity (working s) \<Longrightarrow>
   chunk_loop col cs acc s = Inr (acc @ map (\<lambda>c. filter_join col c (working s)) cs, s)"
  by (induction cs arbitrary: acc) (simp_all add: query_clean)

lemma chunk_loop_flush:
  assumes "flush s = Inr s'" "cs \<noteq> []"
  shows "chunk_loop col cs acc s = Inr (acc @ map (\<lambda>c. filter_join col c (working s')) cs, s')"
proof -
  from assms(2) obtain c rest where cs: "cs = c # rest" by (cases cs) auto
  from assms(1) have clean: "pending s' = []" "integrity (working s')"
    by (auto dest: flush_Inr)
  show ?thesis
    unfolding cs using assms(1) chunk_loop_clean [OF clean]
    by (simp add: query_def)
qed

lemma chunk_loop_fail:
  "flush s = Inl e \<Longrightarrow> cs \<noteq> [] \<Longrightarrow> chunk_loop col cs acc s = Inl e"
  by (cases cs) (simp_all add: query_def)

lemma query_term_chunks_nonempty: "xs \<noteq> [] \<Longrightarrow> query_term_chunks xs \<noteq> []"
  by (subst query_term_chunks_rec) simp

lemma select_filings_chunked:
  assumes "999 \<le> length ts" "flush s = Inr s'"
  shows "select_filings s col ts =
           Inr (concat (map (\<lambda>c. filter_join col c (working s')) (query_term_chunks ts)), s')"
proof -
  from assms(1) have "ts \<noteq> []" by auto
  then have "query_term_chunks ts \<noteq> []" by (rule query_term_chunks_nonempty)
  with assms show ?thesis
    by (simp add: select_filings_def flatten_def chunk_loop_flush)
qed

lemma select_filings_chunked_fail:
  assumes "999 \<le> length ts" "flush s = Inl e"
  shows "select_filings s col ts = Inl e"
proof -
  from assms(1) have "ts \<noteq> []" by auto
  then have "query_term_chunks ts \<noteq> []" by (rule query_term_chunks_nonempty)
  with assms show ?thesis
    by (simp add: select_filings_def chunk_loop_fail)
qed

lemma mset_filter_disjoint:
  "(\<And>x. x \<in> set xs \<Longrightarrow> \<not> (P x \<and> Q x)) \<Longrightarrow>
   mset (filter (\<lambda>x. P x \<or> Q x) xs) = mset (filter P xs) + mset (filter Q xs)"
  by (induction xs) auto

lemma col_in_append:
  "col_in col (xs @ ys) r = (col_in col xs r \<or> col_in col ys r)"
  by (auto simp: col_in_def split: option.splits)

lemma mset_chunk_results:
  "distinct (concat cs) \<Longrightarrow>
   mset (concat (map (\<lambda>c. filter (col_in col c) rs) cs))
     = mset (filter (col_in col (concat cs)) rs)"
proof (induction cs)
  case Nil
  show ?case by (simp add: col_in_def split: option.splits)
next
  case (Cons c cs)
  then have d: "distinct (concat cs)" and disj: "set c \<inter> set (concat cs) = {}"
    by auto
  have "\<not> (col_in col c x \<and> col_in col (concat cs) x)" for x
    using disj by (auto simp: col_in_def split: option.splits)
  then have "mset (filter (col_in col (c @ concat cs)) rs)
      = mset (filter (col_in col c) rs) + mset (filter (col_in col (concat cs)) rs)"
    using mset_filter_disjoint [of rs "col_in col c" "col_in col (concat cs)"]
    by (simp add: col_in_append [abs_def])
  with Cons.IH [OF d] show ?case by simp
qed

lemma col_in_replicate: "0 < n \<Longrightarrow> col_in col (replicate n x) = col_in col [x]"
  by (auto simp: col_in_def fun_eq_iff split: option.splits)

lemma stored_clean: "flush stored = Inr stored"
  by code_simp

lemma chunks_1000: "query_term_chunks (replicate 1000 x) = [replicate 995 x, replicate 5 x]"
  by (simp add: query_term_chunks_rec [of "replicate 1000 x"]
        query_term_chunks_rec [of "replicate 5 x"] query_term_chunks_Nil)

lemma filter_join_replicate:
  "0 < n \<Longrightarrow> filter_join col (replicate n x) d = filter_join col [x] d"
  by (simp add: filter_join_def col_in_replicate)

lemma acme_rows: "filter_join (\<lambda>r. Some (company_cik (snd r))) [''0001''] (working stored) = [(filing_a1, acme)]"
  by code_simp

text \<open>
  C5. A list of exactly 999 values is not run as one query: it takes the \<open>else\<close>
  branch of line 104 and is cut into a chunk of 995 and a chunk of 4. With the same
  cik 999 times the two chunk results are concatenated, so the matching row comes
  back twice, where the single query returns it once.
\<close>

theorem list_of_999_is_chunked:
  "length (replicate 999 ''0001'') = 999 \<and>
   map length (query_term_chunks (replicate 999 ''0001'')) = [995, 4] \<and>
   select_filings_by_ciks stored (replicate 999 ''0001'')
     = Inr ([(filing_a1, acme), (filing_a1, acme)], stored) \<and>
   unchunked_select_filings stored (\<lambda>r. Some (company_cik (snd r))) (replicate 999 ''0001'')
     = Inr ([(filing_a1, acme)], stored)"
proof -
  have "select_filings_by_ciks stored (replicate 999 ''0001'')
     = Inr ([(filing_a1, acme), (filing_a1, acme)], stored)"
    unfolding select_filings_by_ciks_def
    by (simp add: select_filings_chunked [OF _ stored_clean] chunks_999 filter_join_replicate acme_rows)
  moreover have "unchunked_select_filings stored (\<lambda>r. Some (company_cik (snd r))) (replicate 999 ''0001'')
     = Inr ([(filing_a1, acme)], stored)"
    by (simp add: unchunked_select_filings_def query_def stored_clean filter_join_replicate acme_rows)
  ultimately show ?thesis by (simp add: chunks_999)
qed

text \<open>
  When the list is shorter than 999 the call is the single query; from 999 on it is
  the concatenation, in chunk order, of one query per chunk, every chunk holding
  between 1 and 995 values.
\<close>

lemma select_filings_single:
  "length ts < 999 \<Longrightarrow> select_filings s col ts = unchunked_select_filings s col ts"
  by (simp add: select_filings_def unchunked_select_filings_def)

text \<open>
  C4. Each chunk is a query of its own and the results are concatenated as they
  come, so a value that occurs in two chunks brings its rows back once per chunk,
  where the single query, the branch of line 105 included, returns every matching row
  once. With the cik \<open>0001\<close> a thousand times the chunked call returns the matching
  row twice, the unchunked query once.
\<close>

theorem repeated_value_across_chunks_duplicates:
  "999 < length (replicate 1000 ''0001'') \<and>
   select_filings_by_ciks stored (replicate 1000 ''0001'')
     = Inr ([(filing_a1, acme), (filing_a1, acme)], stored) \<and>
   unchunked_select_filings stored (\<lambda>r. Some (company_cik (snd r))) (replicate 1000 ''0001'')
     = Inr ([(filing_a1, acme)], stored) \<and>
   mset [(filing_a1, acme), (filing_a1, acme)] \<noteq> mset [(filing_a1, acme)]"
proof -
  have "select_filings_by_ciks stored (replicate 1000 ''0001'')
     = Inr ([(filing_a1, acme), (filing_a1, acme)], stored)"
    unfolding select_filings_by_ciks_def
    by (simp add: select_filings_chunked [OF _ stored_clean] chunks_1000 filter_join_replicate acme_rows)
  moreover have "unchunked_select_filings stored (\<lambda>r. Some (company_cik (snd r))) (replicate 1000 ''0001'')
     = Inr ([(filing_a1, acme)], stored)"
    by (simp add: unchunked_select_filings_def query_def stored_clean filter_join_replicate acme_rows)
  ultimately show ?thesis by simp
qed

text \<open>
  Where no value occurs in two different chunks, the chunked call and the unchunked
  query agree: for a list of 999 values or more the call returns the concatenation of
  the per-chunk results, and that list is equal as a multiset to the result of the
  single query over the whole list; when the query's flush fails, both raise the
  same exception.
\<close>

lemma col_in_same_set: "set xs = set ys \<Longrightarrow> col_in col xs = col_in col ys"
  by (auto simp: col_in_def fun_eq_iff split: option.splits)

lemma mset_chunk_results_remdups:
  assumes "distinct (concat (map remdups cs))"
  shows "mset (concat (map (\<lambda>c. filter (col_in col c) rs) cs))
           = mset (filter (col_in col (concat cs)) rs)"
proof -
  have "col_in col (remdups c) = col_in col c" for c
    by (rule col_in_same_set) simp
  then have l: "map (\<lambda>c. filter (col_in col c) rs) (map remdups cs)
                  = map (\<lambda>c. filter (col_in col c) rs) cs"
    by (simp add: comp_def)
  have "set (concat (map remdups cs)) = set (concat cs)" by simp
  then have r: "col_in col (concat (map remdups cs)) = col_in col (concat cs)"
    by (rule col_in_same_set)
  from mset_chunk_results [OF assms, of col rs] show ?thesis
    unfolding l r .
qed

lemma chunked_equals_unchunked_disjoint_chunks:
  assumes "999 \<le> length query_terms"
    and "distinct (concat (map remdups (query_term_chunks query_terms)))"
  shows "case flush s of
           Inl e \<Rightarrow> select_filings s query_col query_terms = Inl e \<and>
                    unchunked_select_filings s query_col query_terms = Inl e
         | Inr s' \<Rightarrow>
             select_filings s query_col query_terms =
               Inr (concat (map (\<lambda>c. filter_join query_col c (working s'))
                              (query_term_chunks query_terms)), s') \<and>
             unchunked_select_filings s query_col query_terms =
               Inr (filter_join query_col query_terms (working s'), s') \<and>
             mset (concat (map (\<lambda>c. filter_join query_col c (working s'))
                             (query_term_chunks query_terms)))
               = mset (filter_join query_col query_terms (working s'))"
proof (cases "flush s")
  case (Inl e)
  with assms(1) show ?thesis
    by (simp add: select_filings_chunked_fail unchunked_select_filings_def query_def)
next
  case (Inr s')
  have "mset (concat (map (\<lambda>c. filter_join query_col c (working s'))
                             (query_term_chunks query_terms)))
               = mset (filter_join query_col query_terms (working s'))"
    unfolding filter_join_def
    using mset_chunk_results_remdups
      [OF assms(2), of query_col "join_filings (working s')"]
    by (simp add: query_term_chunks_concat)
  with Inr assms(1) show ?thesis
    by (simp add: select_filings_chunked unchunked_select_filings_def query_def)
qed

section \<open>The distinct-cik lookups: what matches\<close>

lemma like_match_plain:
  "wildcard_free p \<Longrightarrow> like_match p s \<longleftrightarrow> p = s"
proof (induction p arbitrary: s)
  case Nil
  show ?case by (cases s) auto
next
  case (Cons a p)
  then have "wildcard_free p" "a \<noteq> CHR ''%''" "a \<noteq> CHR ''_''"
    by (auto simp: wildcard_free_def)
  with Cons.IH show ?case by (cases s) auto
qed

lemma like_match_percent: "like_match ''%'' s"
  by (induction s) auto

lemma like_match_prefix:
  "wildcard_free p \<Longrightarrow> like_match (p @ ''%'') s \<longleftrightarrow> prefix p s"
proof (induction p arbitrary: s)
  case Nil
  show ?case using like_match_percent by simp
next
  case (Cons a p)
  then have "wildcard_free p" "a \<noteq> CHR ''%''" "a \<noteq> CHR ''_''"
    by (auto simp: wildcard_free_def)
  with Cons.IH show ?case by (cases s) auto
qed

lemma like_match_sublist:
  "wildcard_free p \<Longrightarrow> like_match (''%'' @ p @ ''%'') s \<longleftrightarrow> sublist p s"
proof (induction s)
  case Nil
  then show ?case using like_match_prefix [of p "[]"] by simp
next
  case (Cons c cs)
  then show ?case
    using like_match_prefix [of p "c # cs"] by (simp add: sublist_Cons_right)
qed

lemma lower_char_wild:
  "lower_char c = CHR ''%'' \<longleftrightarrow> c = CHR ''%''" "lower_char c = CHR ''_'' \<longleftrightarrow> c = CHR ''_''"
  by (auto simp: lower_char_def split: if_splits)

lemma wildcard_free_lower: "wildcard_free (lower t) \<longleftrightarrow> wildcard_free t"
proof (induction t)
  case Nil
  show ?case by (simp add: lower_def)
next
  case (Cons c t)
  have "CHR ''%'' = lower_char c \<longleftrightarrow> CHR ''%'' = c" "CHR ''_'' = lower_char c \<longleftrightarrow> CHR ''_'' = c"
    using lower_char_wild [of c] by auto
  with Cons show ?case by (auto simp: wildcard_free_def lower_def)
qed

lemma ilike_plain:
  "wildcard_free t \<Longrightarrow> ilike col t = ci_equal col t"
  by (auto simp: ilike_def ci_equal_def like_match_plain wildcard_free_lower split: option.splits)

lemma ilike_contains:
  "wildcard_free t \<Longrightarrow> ilike col (''%'' @ t @ ''%'') = ci_substring col t"
proof -
  assume "wildcard_free t"
  then have w: "wildcard_free (lower t)" by (simp add: wildcard_free_lower)
  have l: "lower (''%'' @ t @ ''%'') = ''%'' @ lower t @ ''%''"
    by (simp add: lower_def lower_char_def)
  show ?thesis
    unfolding ilike_def ci_substring_def l using like_match_sublist [OF w]
    by (simp split: option.splits)
qed


lemma ilike_contains_Cons:
  "wildcard_free t \<Longrightarrow> ilike col (CHR ''%'' # t @ ''%'') = ci_substring col t"
  using ilike_contains [of t col] by simp

text \<open>
  C8, as stated, fails: the lookups by state, industry code and ticker are not exact
  matches. The ticker \<open>aapl\<close> finds the company whose ticker is \<open>AAPL\<close>, and the state
  pattern \<open>_a\<close> finds the company in \<open>CA\<close>; an exact match finds nothing in either case.
\<close>

theorem ticker_lookup_is_not_exact:
  "select_ciks_by_ticker apple_store ''aapl'' = (apple_store, Returned [''0000320193'']) \<and>
   lookup_ciks_where apple_store (\<lambda>c. exact_match (company_ticker c) ''aapl'')
     = (apple_store, Exited 0) \<and>
   select_ciks_by_state apple_store ''_a'' = (apple_store, Returned [''0000320193'']) \<and>
   lookup_ciks_where apple_store (\<lambda>c. exact_match (company_state c) ''_a'')
     = (apple_store, Exited 0)"
  by code_simp

text \<open>
  C8, amended. For a search term without the wildcards \<open>%\<close> and \<open>_\<close>, the lookup by
  state, industry code or ticker matches the companies whose column equals the term
  up to the case of ASCII letters, and the lookup by name those whose name contains
  the term up to letter case; each returns the cik values of the matching companies
  (and ends the process when there is none). A term with a wildcard is a pattern.
\<close>

theorem lookups_match_ignoring_case:
  assumes "wildcard_free t"
  shows "select_ciks_by_state s t = lookup_ciks_where s (\<lambda>c. ci_equal (company_state c) t) \<and>
         select_ciks_by_sic s t = lookup_ciks_where s (\<lambda>c. ci_equal (company_sic c) t) \<and>
         select_ciks_by_ticker s t = lookup_ciks_where s (\<lambda>c. ci_equal (company_ticker c) t) \<and>
         select_ciks_by_name s t = lookup_ciks_where s (\<lambda>c. ci_substring (company_name c) t)"
  using assms
  by (simp add: select_ciks_by_state_def select_ciks_by_sic_def select_ciks_by_ticker_def
        select_ciks_by_name_def select_distinct_ciks_def lookup_ciks_where_def
        ilike_plain ilike_contains_Cons)

theorem lookups_match_ignoring_case_witness:
  "wildcard_free ''aapl'' \<and> wildcard_free ''PPLE i'' \<and>
   select_ciks_by_ticker apple_store ''aapl'' = (apple_store, Returned [''0000320193'']) \<and>
   select_ciks_by_name apple_store ''PPLE i'' = (apple_store, Returned [''0000320193''])"
proof -
  have w1: "wildcard_free ''aapl''" and w2: "wildcard_free ''PPLE i''"
    by code_simp+
  have e1: "lookup_ciks_where apple_store (\<lambda>c. ci_equal (company_ticker c) ''aapl'')
              = (apple_store, Returned [''0000320193''])"
    by code_simp
  have e2: "lookup_ciks_where apple_store (\<lambda>c. ci_substring (company_name c) ''PPLE i'')
              = (apple_store, Returned [''0000320193''])"
    by code_simp
  from lookups_match_ignoring_case [OF w1, of apple_store]
       lookups_match_ignoring_case [OF w2, of apple_store] w1 w2 e1 e2
  show ?thesis by simp
qed

section \<open>Ingestion: the parsed flag and the committed rows\<close>










end
